theory Spec2Isabelle
  imports Main "HOL-Library.Product_Lexorder"
begin

section \<open>A contact directory: fields, records, the birthday query, persistence\<close>

text \<open>
  The program is one Python file, \<^verbatim>\<open>src/goit-pycore-hw-07.py\<close>. Its classes
  \<^verbatim>\<open>Name\<close>, \<^verbatim>\<open>Phone\<close>, \<^verbatim>\<open>Birthday\<close>, \<^verbatim>\<open>Record\<close>, \<^verbatim>\<open>AddressBook\<close> and its functions
  \<^verbatim>\<open>file_read\<close>, \<^verbatim>\<open>file_write\<close> are embedded below as HOL functions.

  Conventions of the embedding:
  \<^item> a Python \<^verbatim>\<open>str\<close> is a \<^typ>\<open>string\<close>; a \<^typ>\<open>char\<close> stands for one code point in the
    range U+0000..U+00FF, so the model covers strings over that range;
  \<^item> a raised exception is the \<open>Inl\<close> branch of a sum, a normal return the \<open>Inr\<close> branch;
  \<^item> a method that mutates \<^verbatim>\<open>self\<close> takes the record and returns the updated record
    beside its return code (the source returns \<^verbatim>\<open>1\<close> or \<^verbatim>\<open>0\<close>);
  \<^item> \<^verbatim>\<open>print\<close> has no effect on the modelled state and is left out, but the evaluation
    of its argument is modelled where it can raise;
  \<^item> a \<^verbatim>\<open>datetime\<close> produced by \<^verbatim>\<open>strptime\<close> with the format \<^verbatim>\<open>%d.%m.%Y\<close> is at
    midnight, so it is represented by its calendar date;
  \<^item> a \<^verbatim>\<open>dict\<close> is an association list with distinct keys in insertion order;
  \<^item> the contents of the file \<^verbatim>\<open>contacts.txt\<close> is a string, and an absent file is \<open>None\<close>.
\<close>

datatype error = ValueError | TypeError | OverflowError | AttributeError

subsection \<open>Characters and the string methods the program calls\<close>

definition LF :: char where
  "LF = CHR 0x0A"

definition CR :: char where
  "CR = CHR 0x0D"

text \<open>The class \<^verbatim>\<open>\d\<close> of \<^verbatim>\<open>re\<close>, over the code points below 256.\<close>

definition is_digit :: "char \<Rightarrow> bool" where
  "is_digit c = (c \<in> set ''0123456789'')"

text \<open>What \<^verbatim>\<open>str.isspace\<close> accepts below 256; \<^verbatim>\<open>str.strip()\<close> removes these.\<close>

definition is_space :: "char \<Rightarrow> bool" where
  "is_space c = (c \<in> set [CHR 0x09, CHR 0x0A, CHR 0x0B, CHR 0x0C, CHR 0x0D,
                              CHR 0x1C, CHR 0x1D, CHR 0x1E, CHR 0x1F, CHR 0x20,
                              CHR 0x85, CHR 0xA0])"

definition strip :: "string \<Rightarrow> string" where
  "strip s = rev (dropWhile is_space (rev (dropWhile is_space s)))"

text \<open>
  \<^verbatim>\<open>s.split(sep)\<close> for a separator of one character. The result is never empty, so
  the first branch of the \<open>case\<close> is never taken.
\<close>

fun split :: "char \<Rightarrow> string \<Rightarrow> string list" where
  "split sep [] = [[]]"
| "split sep (c # cs) =
     (if c = sep then [] # split sep cs
      else (case split sep cs of [] \<Rightarrow> [[c]] | t # ts \<Rightarrow> (c # t) # ts))"

text \<open>\<^verbatim>\<open>sep.join(xs)\<close>.\<close>

fun join :: "string \<Rightarrow> string list \<Rightarrow> string" where
  "join sep [] = []"
| "join sep [x] = x"
| "join sep (x # y # ys) = x @ sep @ join sep (y # ys)"

definition digit_val :: "char \<Rightarrow> nat" where
  "digit_val c = of_char c - 48"

definition digit_char :: "nat \<Rightarrow> char" where
  "digit_char n = char_of (48 + n)"

text \<open>\<^verbatim>\<open>int(s)\<close> on a string of decimal digits with blanks around it.\<close>

definition py_int :: "string \<Rightarrow> nat" where
  "py_int s = foldl (\<lambda>n c. 10 * n + digit_val c) 0 (strip s)"

text \<open>Decimal digits of a number, and the two-digit field of \<^verbatim>\<open>%d\<close> and \<^verbatim>\<open>%m\<close>.\<close>

fun dec :: "nat \<Rightarrow> string" where
  "dec n = (if n < 10 then [digit_char n] else dec (n div 10) @ [digit_char (n mod 10)])"

declare dec.simps [simp del]

definition pad2 :: "nat \<Rightarrow> string" where
  "pad2 n = (if n < 10 then CHR ''0'' # dec n else dec n)"

subsection \<open>Calendar dates\<close>

datatype date = Date (year: nat) (month: nat) (day: nat)

definition is_leap :: "nat \<Rightarrow> bool" where
  "is_leap y = (y mod 4 = 0 \<and> (y mod 100 \<noteq> 0 \<or> y mod 400 = 0))"

definition days_in_month :: "nat \<Rightarrow> nat \<Rightarrow> nat" where
  "days_in_month y m =
     (if m = 2 then (if is_leap y then 29 else 28)
      else if m \<in> {4, 6, 9, 11} then 30 else 31)"

text \<open>The dates \<^verbatim>\<open>datetime\<close> can hold: years 1 to 9999.\<close>

definition valid_date :: "date \<Rightarrow> bool" where
  "valid_date d = (1 \<le> year d \<and> year d \<le> 9999 \<and> 1 \<le> month d \<and> month d \<le> 12 \<and>
                   1 \<le> day d \<and> day d \<le> days_in_month (year d) (month d))"

text \<open>
  \<^verbatim>\<open>d + timedelta(days=n)\<close> for \<open>n \<ge> 0\<close>: the \<open>n\<close>-th day after \<open>d\<close>, and
  \<^verbatim>\<open>OverflowError\<close> once the result would pass 31.12.9999.
\<close>

definition next_day :: "date \<Rightarrow> error + date" where
  "next_day d =
     (if day d < days_in_month (year d) (month d) then Inr (Date (year d) (month d) (day d + 1))
      else if month d < 12 then Inr (Date (year d) (month d + 1) 1)
      else if year d < 9999 then Inr (Date (year d + 1) 1 1)
      else Inl OverflowError)"

fun add_days :: "date \<Rightarrow> nat \<Rightarrow> error + date" where
  "add_days d 0 = Inr d"
| "add_days d (Suc n) = (case next_day d of Inl e \<Rightarrow> Inl e | Inr d' \<Rightarrow> add_days d' n)"

text \<open>The order of \<^verbatim>\<open>datetime\<close> values at midnight: by year, then month, then day.\<close>

definition date_key :: "date \<Rightarrow> nat \<times> nat \<times> nat" where
  "date_key d = (year d, month d, day d)"

subsection \<open>\<^verbatim>\<open>datetime.strptime(s, "%d.%m.%Y")\<close> and \<^verbatim>\<open>strftime("%d.%m.%Y")\<close>\<close>

text \<open>
  The library turns the format into the regular expression
  \<^verbatim>\<open>(?P<d>3[0-1]|[1-2]\d|0[1-9]|[1-9]| [1-9])\.(?P<m>1[0-2]|0[1-9]|[1-9])\.(?P<Y>\d\d\d\d)\<close>,
  matches it at the start of the string, and raises \<^verbatim>\<open>ValueError\<close> when there is no
  match, when text remains after the match, or when the numbers are no date.
  A group is modelled by the list of its possible matches (matched text and rest), in
  the order in which the backtracking matcher tries the alternatives.
\<close>

definition alt1 :: "(char \<Rightarrow> bool) \<Rightarrow> string \<Rightarrow> (string \<times> string) list" where
  "alt1 P s = (case s of a # r \<Rightarrow> if P a then [([a], r)] else [] | _ \<Rightarrow> [])"

definition alt2 :: "(char \<Rightarrow> char \<Rightarrow> bool) \<Rightarrow> string \<Rightarrow> (string \<times> string) list" where
  "alt2 P s = (case s of a # b # r \<Rightarrow> if P a b then [([a, b], r)] else [] | _ \<Rightarrow> [])"

definition d_group :: "string \<Rightarrow> (string \<times> string) list" where
  "d_group s =
     alt2 (\<lambda>a b. a = CHR ''3'' \<and> b \<in> set ''01'') s @
     alt2 (\<lambda>a b. a \<in> set ''12'' \<and> is_digit b) s @
     alt2 (\<lambda>a b. a = CHR ''0'' \<and> b \<in> set ''123456789'') s @
     alt1 (\<lambda>a. a \<in> set ''123456789'') s @
     alt2 (\<lambda>a b. a = CHR '' '' \<and> b \<in> set ''123456789'') s"

definition m_group :: "string \<Rightarrow> (string \<times> string) list" where
  "m_group s =
     alt2 (\<lambda>a b. a = CHR ''1'' \<and> b \<in> set ''012'') s @
     alt2 (\<lambda>a b. a = CHR ''0'' \<and> b \<in> set ''123456789'') s @
     alt1 (\<lambda>a. a \<in> set ''123456789'') s"

definition Y_group :: "string \<Rightarrow> (string \<times> string) list" where
  "Y_group s =
     (case s of a # b # c # d # r \<Rightarrow>
        if is_digit a \<and> is_digit b \<and> is_digit c \<and> is_digit d then [([a, b, c, d], r)] else []
      | _ \<Rightarrow> [])"

definition dot :: "string \<Rightarrow> string list" where
  "dot s = (case s of a # r \<Rightarrow> if a = CHR ''.'' then [r] else [] | _ \<Rightarrow> [])"

definition format_regex :: "string \<Rightarrow> ((string \<times> string \<times> string) \<times> string) list" where
  "format_regex s =
     concat (map (\<lambda>(d, r1).
       concat (map (\<lambda>r2.
         concat (map (\<lambda>(m, r3).
           concat (map (\<lambda>r4.
             map (\<lambda>(y, r5). ((d, m, y), r5)) (Y_group r4))
           (dot r3)))
         (m_group r2)))
       (dot r1)))
     (d_group s))"

definition strptime :: "string \<Rightarrow> error + date" where
  "strptime s =
     (case format_regex s of
        [] \<Rightarrow> Inl ValueError
      | ((d, m, y), rest) # _ \<Rightarrow>
          if rest \<noteq> [] then Inl ValueError
          else let dt = Date (py_int y) (py_int m) (py_int d)
               in if valid_date dt then Inr dt else Inl ValueError)"

definition strftime :: "date \<Rightarrow> string" where
  "strftime d = pad2 (day d) @ ''.'' @ pad2 (month d) @ ''.'' @ dec (year d)"

subsection \<open>The fields\<close>

text \<open>\<^verbatim>\<open>Name.__init__\<close>: only \<^verbatim>\<open>not value\<close> is checked.\<close>

definition Name :: "string \<Rightarrow> error + string" where
  "Name v = (if v = [] then Inl ValueError else Inr v)"

text \<open>
  \<^verbatim>\<open>$\<close> without \<^verbatim>\<open>re.MULTILINE\<close> matches at the end of the string and also just before
  a line feed that ends the string.
\<close>

definition at_end :: "string \<Rightarrow> bool" where
  "at_end s = (s = [] \<or> s = [LF])"

text \<open>\<^verbatim>\<open>\d{n}\<close>: the rest of the string after \<open>n\<close> digits.\<close>

fun match_digits :: "nat \<Rightarrow> string \<Rightarrow> string option" where
  "match_digits 0 s = Some s"
| "match_digits (Suc n) [] = None"
| "match_digits (Suc n) (c # s) = (if is_digit c then match_digits n s else None)"

text \<open>\<^verbatim>\<open>Phone.validate_phone\<close>: \<^verbatim>\<open>bool(re.match(r"^\d{10}$", value))\<close>.\<close>

definition validate_phone :: "string \<Rightarrow> bool" where
  "validate_phone v = (case match_digits 10 v of None \<Rightarrow> False | Some r \<Rightarrow> at_end r)"

definition Phone :: "string \<Rightarrow> error + string" where
  "Phone v = (if \<not> validate_phone v then Inl ValueError else Inr v)"

text \<open>
  \<^verbatim>\<open>Birthday.validate_birthday\<close>:
  \<^verbatim>\<open>^(0[1-9]|[12][0-9]|3[01])\.(0[1-9]|1[0-2])\.(19|20)\d{2}$\<close>.
  Every alternative of a group takes two characters, so the match is read off the
  first ten characters.
\<close>

definition day_tok :: "char \<Rightarrow> char \<Rightarrow> bool" where
  "day_tok a b = (a = CHR ''0'' \<and> b \<in> set ''123456789'' \<or>
                  a \<in> set ''12'' \<and> b \<in> set ''0123456789'' \<or>
                  a = CHR ''3'' \<and> b \<in> set ''01'')"

definition month_tok :: "char \<Rightarrow> char \<Rightarrow> bool" where
  "month_tok a b = (a = CHR ''0'' \<and> b \<in> set ''123456789'' \<or>
                    a = CHR ''1'' \<and> b \<in> set ''012'')"

definition century_tok :: "char \<Rightarrow> char \<Rightarrow> bool" where
  "century_tok a b = (a = CHR ''1'' \<and> b = CHR ''9'' \<or> a = CHR ''2'' \<and> b = CHR ''0'')"

fun validate_birthday :: "string \<Rightarrow> bool" where
  "validate_birthday (d1 # d2 # p1 # m1 # m2 # p2 # y1 # y2 # y3 # y4 # rest) =
     (day_tok d1 d2 \<and> p1 = CHR ''.'' \<and> month_tok m1 m2 \<and> p2 = CHR ''.'' \<and>
      century_tok y1 y2 \<and> is_digit y3 \<and> is_digit y4 \<and> at_end rest)"
| "validate_birthday _ = False"

text \<open>
  \<^verbatim>\<open>Birthday.__init__\<close>: the regular expression first, then \<^verbatim>\<open>datetime.strptime\<close>,
  whose \<^verbatim>\<open>ValueError\<close> leaves the constructor as well.
\<close>

definition Birthday :: "string \<Rightarrow> error + date" where
  "Birthday v = (if \<not> validate_birthday v then Inl ValueError else strptime v)"

subsection \<open>\<^verbatim>\<open>Record\<close>\<close>

text \<open>
  \<^verbatim>\<open>self.name\<close> is \<open>None\<close> when \<^verbatim>\<open>Name\<close> raised; \<^verbatim>\<open>self.phones\<close> holds the values of
  the \<^verbatim>\<open>Phone\<close> objects in order; \<^verbatim>\<open>self.birthday\<close> is \<open>None\<close> or the value of the
  \<^verbatim>\<open>Birthday\<close> object.
\<close>

record Record =
  name :: "string option"
  phones :: "string list"
  birthday :: "date option"

definition Record_init :: "string \<Rightarrow> Record" where
  "Record_init nm =
     \<lparr>name = (case Name nm of Inl e \<Rightarrow> None | Inr v \<Rightarrow> Some v), phones = [], birthday = None\<rparr>"

definition add_phone :: "Record \<Rightarrow> string \<Rightarrow> Record \<times> int" where
  "add_phone r phone =
     (case Phone phone of
        Inr valid_phone \<Rightarrow> (r\<lparr>phones := phones r @ [valid_phone]\<rparr>, 1)
      | Inl e \<Rightarrow> (r, 0))"

definition delete_phone :: "Record \<Rightarrow> string \<Rightarrow> Record \<times> int" where
  "delete_phone r phone = (r\<lparr>phones := filter (\<lambda>p. p \<noteq> phone) (phones r)\<rparr>, 1)"

text \<open>
  The loop of \<^verbatim>\<open>edit_phone\<close> over \<^verbatim>\<open>self.phones\<close>: at the first entry equal to
  \<^verbatim>\<open>old_phone\<close> it calls \<^verbatim>\<open>add_phone\<close>, then \<^verbatim>\<open>delete_phone\<close>, and returns 1 whatever
  the two calls returned. \<open>None\<close> means the loop ended without a match.
\<close>

fun edit_phone_loop :: "Record \<Rightarrow> string list \<Rightarrow> string \<Rightarrow> string \<Rightarrow> (Record \<times> int) option" where
  "edit_phone_loop r [] old_phone new_phone = None"
| "edit_phone_loop r (p # ps) old_phone new_phone =
     (if p = old_phone
      then Some (fst (delete_phone (fst (add_phone r new_phone)) old_phone), 1)
      else edit_phone_loop r ps old_phone new_phone)"

definition edit_phone :: "Record \<Rightarrow> string \<Rightarrow> string \<Rightarrow> Record \<times> int" where
  "edit_phone r old_phone new_phone =
     (case edit_phone_loop r (phones r) old_phone new_phone of
        Some res \<Rightarrow> res
      | None \<Rightarrow> (r, 0))"

text \<open>
  \<^verbatim>\<open>add_birthday\<close>: when a birthday is set, the message is built from
  \<^verbatim>\<open>self.name.value\<close> before 0 is returned, and that expression raises
  \<^verbatim>\<open>AttributeError\<close> on a record whose name is \<open>None\<close>.
\<close>

definition add_birthday :: "Record \<Rightarrow> string \<Rightarrow> error + Record \<times> int" where
  "add_birthday r b =
     (if birthday r \<noteq> None
      then (case name r of None \<Rightarrow> Inl AttributeError | Some n \<Rightarrow> Inr (r, 0))
      else (case Birthday b of
              Inr d \<Rightarrow> Inr (r\<lparr>birthday := Some d\<rparr>, 1)
            | Inl e \<Rightarrow> Inr (r, 0)))"

definition delete_birthday :: "Record \<Rightarrow> Record" where
  "delete_birthday r = r\<lparr>birthday := None\<rparr>"

definition edit_birthday :: "Record \<Rightarrow> string \<Rightarrow> Record \<times> int" where
  "edit_birthday r new_birthday =
     (case Birthday new_birthday of
        Inr d \<Rightarrow> (r\<lparr>birthday := Some d\<rparr>, 1)
      | Inl e \<Rightarrow> (r, 0))"

subsection \<open>\<^verbatim>\<open>AddressBook\<close>\<close>

type_synonym book = "(string \<times> Record) list"

text \<open>\<^verbatim>\<open>d[k] = v\<close>: an existing key keeps its place, a new key goes to the end.\<close>

fun dict_set :: "'k \<Rightarrow> 'v \<Rightarrow> ('k \<times> 'v) list \<Rightarrow> ('k \<times> 'v) list" where
  "dict_set k v [] = [(k, v)]"
| "dict_set k v ((k', v') # kvs) =
     (if k' = k then (k, v) # kvs else (k', v') # dict_set k v kvs)"

definition add_record :: "book \<Rightarrow> Record \<Rightarrow> book" where
  "add_record b r = (case name r of None \<Rightarrow> b | Some n \<Rightarrow> dict_set n r b)"

definition find :: "book \<Rightarrow> string \<Rightarrow> Record option" where
  "find b n = map_of b n"

definition delete :: "book \<Rightarrow> string \<Rightarrow> book \<times> int" where
  "delete b n =
     (if n \<in> fst ` set b then (filter (\<lambda>kv. fst kv \<noteq> n) b, 1) else (b, 0))"

text \<open>
  The inner loop of \<^verbatim>\<open>birthdays\<close> over \<^verbatim>\<open>range(search_period + 1)\<close>: whether some
  \<^verbatim>\<open>today + timedelta(days=delta)\<close> has the month and day of the birthday. The sum
  \<^verbatim>\<open>today + timedelta(days=delta)\<close> is computed before the comparison, so its
  \<^verbatim>\<open>OverflowError\<close> ends the loop.
\<close>

fun in_window :: "date \<Rightarrow> date \<Rightarrow> nat list \<Rightarrow> error + bool" where
  "in_window today birthday_date [] = Inr False"
| "in_window today birthday_date (delta # deltas) =
     (case add_days today delta of
        Inl e \<Rightarrow> Inl e
      | Inr check_date \<Rightarrow>
          if month birthday_date = month check_date \<and> day birthday_date = day check_date
          then Inr True
          else in_window today birthday_date deltas)"

text \<open>
  The outer loop over \<^verbatim>\<open>self.data.values()\<close>; \<open>upcoming\<close> is the list
  \<^verbatim>\<open>upcoming_birthdays\<close>, an entry the pair of \<^verbatim>\<open>"name"\<close> and \<^verbatim>\<open>"congratulation_date"\<close>.
\<close>

type_synonym entry = "string \<times> string"

fun scan_users :: "date \<Rightarrow> entry list \<Rightarrow> Record list \<Rightarrow> error + entry list" where
  "scan_users today upcoming [] = Inr upcoming"
| "scan_users today upcoming (user # users) =
     (case birthday user of
        None \<Rightarrow> scan_users today upcoming users
      | Some birthday_date \<Rightarrow>
          (case in_window today birthday_date [0..<7 + 1] of
             Inl e \<Rightarrow> Inl e
           | Inr False \<Rightarrow> scan_users today upcoming users
           | Inr True \<Rightarrow>
               (case name user of
                  None \<Rightarrow> Inl AttributeError
                | Some n \<Rightarrow> scan_users today (upcoming @ [(n, strftime birthday_date)]) users)))"

text \<open>
  \<^verbatim>\<open>sorted(upcoming_birthdays, key=...)\<close>: the key of every entry is computed first
  (\<^verbatim>\<open>strptime\<close> of its date string, which may raise), then the entries are sorted by key,
  entries of equal key staying in their order.
\<close>

fun sort_keys :: "entry list \<Rightarrow> error + ((nat \<times> nat \<times> nat) \<times> entry) list" where
  "sort_keys [] = Inr []"
| "sort_keys (x # xs) =
     (case strptime (snd x) of
        Inl e \<Rightarrow> Inl e
      | Inr k \<Rightarrow> (case sort_keys xs of Inl e \<Rightarrow> Inl e | Inr ks \<Rightarrow> Inr ((date_key k, x) # ks)))"

definition sorted_by_date :: "entry list \<Rightarrow> error + entry list" where
  "sorted_by_date xs =
     (case sort_keys xs of Inl e \<Rightarrow> Inl e | Inr ks \<Rightarrow> Inr (map snd (sort_key fst ks)))"

text \<open>
  \<^verbatim>\<open>AddressBook.birthdays(check_day=None)\<close>. \<open>now\<close> is the value of
  \<^verbatim>\<open>datetime.today().date()\<close>. \<^verbatim>\<open>strptime\<close> is called on \<^verbatim>\<open>check_day\<close> inside a
  \<^verbatim>\<open>try\<close> that handles \<^verbatim>\<open>ValueError\<close> only; on \<^verbatim>\<open>None\<close> it raises \<^verbatim>\<open>TypeError\<close>.
\<close>

definition birthdays :: "book \<Rightarrow> date \<Rightarrow> string option \<Rightarrow> error + entry list" where
  "birthdays b now check_day =
     (case check_day of
        None \<Rightarrow> Inl TypeError
      | Some s \<Rightarrow>
          (case (case strptime s of
                   Inr d \<Rightarrow> Inr (Some d)
                 | Inl ValueError \<Rightarrow> Inr None
                 | Inl e \<Rightarrow> Inl e) of
             Inl e \<Rightarrow> Inl e
           | Inr check_date \<Rightarrow>
               let today = (case check_date of Some d \<Rightarrow> d | None \<Rightarrow> now)
               in (case scan_users today [] (map snd b) of
                     Inl e \<Rightarrow> Inl e
                   | Inr upcoming_birthdays \<Rightarrow> sorted_by_date upcoming_birthdays)))"

subsection \<open>Persistence\<close>

text \<open>
  \<^verbatim>\<open>open(path, 'r')\<close> reads with universal newlines: \<^verbatim>\<open>\r\n\<close> and a lone \<^verbatim>\<open>\r\<close> arrive as
  \<^verbatim>\<open>\n\<close>. \<^verbatim>\<open>for line in file\<close> yields the lines with their line feed.
\<close>

fun universal_newlines :: "string \<Rightarrow> string" where
  "universal_newlines [] = []"
| "universal_newlines [c] = (if c = CR then [LF] else [c])"
| "universal_newlines (c # d # cs) =
     (if c = CR then (if d = LF then LF # universal_newlines cs
                      else LF # universal_newlines (d # cs))
      else c # universal_newlines (d # cs))"

fun readlines :: "string \<Rightarrow> string list" where
  "readlines [] = []"
| "readlines (c # cs) =
     (if c = LF then [c] # readlines cs
      else (case readlines cs of [] \<Rightarrow> [[c]] | l # ls \<Rightarrow> (c # l) # ls))"

text \<open>The \<^verbatim>\<open>for phone in phones\<close> loop of \<^verbatim>\<open>file_read\<close>.\<close>

fun add_phones :: "Record \<Rightarrow> string list \<Rightarrow> Record" where
  "add_phones r [] = r"
| "add_phones r (phone # ps) = add_phones (fst (add_phone r phone)) ps"

text \<open>
  The body of the loop over the lines. \<^verbatim>\<open>len(parts) < 1\<close> never holds, since
  \<^verbatim>\<open>split\<close> returns at least one part. The record is the one stored under the name, or
  a new one stored under it; the calls that follow change that stored record.
  \<^verbatim>\<open>add_phone\<close> and \<^verbatim>\<open>add_birthday\<close> handle \<^verbatim>\<open>ValueError\<close> themselves; any other
  exception leaves \<^verbatim>\<open>file_read\<close>.
\<close>

definition read_line :: "book \<Rightarrow> string \<Rightarrow> error + book" where
  "read_line contacts line =
     (let parts = map strip (split (CHR '','') (strip line));
          nm = hd parts;
          phones_str = (if length parts > 1 then parts ! 1 else []);
          bday = (if length parts > 2 then Some (parts ! 2) else None);
          phones = map strip (filter (\<lambda>p. strip p \<noteq> []) (split (CHR ''-'') phones_str));
          record = (case map_of contacts nm of Some r \<Rightarrow> r | None \<Rightarrow> Record_init nm);
          record1 = add_phones record phones
      in case bday of
           None \<Rightarrow> Inr (dict_set nm record1 contacts)
         | Some b \<Rightarrow>
             if b \<noteq> []
             then (case add_birthday record1 b of
                     Inl e \<Rightarrow> Inl e
                   | Inr res \<Rightarrow> Inr (dict_set nm (fst res) contacts))
             else Inr (dict_set nm record1 contacts))"

fun read_lines :: "book \<Rightarrow> string list \<Rightarrow> error + book" where
  "read_lines contacts [] = Inr contacts"
| "read_lines contacts (line # ls) =
     (case read_line contacts line of
        Inl e \<Rightarrow> Inl e
      | Inr contacts' \<Rightarrow> read_lines contacts' ls)"

definition file_read :: "string option \<Rightarrow> error + book" where
  "file_read file =
     (case file of
        None \<Rightarrow> Inr []
      | Some text \<Rightarrow> read_lines [] (readlines (universal_newlines text)))"

text \<open>
  \<^verbatim>\<open>file_write\<close> returns the new contents of the file. The file is opened for writing,
  so it starts empty; an exception (here the \<^verbatim>\<open>AttributeError\<close> of \<^verbatim>\<open>record.name.value\<close>
  on a record without a name) is caught by \<^verbatim>\<open>except Exception\<close> and leaves what was
  written before it.
\<close>

definition write_line :: "Record \<Rightarrow> string option" where
  "write_line r =
     (let phones_str = join ''-'' (phones r);
          birthday_str = (case birthday r of Some d \<Rightarrow> strftime d | None \<Rightarrow> [])
      in case name r of
           None \<Rightarrow> None
         | Some n \<Rightarrow>
             if birthday_str \<noteq> []
             then Some (n @ '', '' @ phones_str @ '', '' @ birthday_str @ [LF])
             else Some (n @ '', '' @ phones_str @ '','' @ [LF]))"

fun write_records :: "Record list \<Rightarrow> string" where
  "write_records [] = []"
| "write_records (r # rs) =
     (case write_line r of None \<Rightarrow> [] | Some l \<Rightarrow> l @ write_records rs)"

definition file_write :: "book \<Rightarrow> string" where
  "file_write contacts = write_records (map snd contacts)"

subsection \<open>The birthday query in the words of the specification\<close>



section \<open>Properties\<close>

subsection \<open>Editing a phone\<close>

lemma edit_phone_loop_eq:
  "edit_phone_loop r ps old_phone new_phone =
     (if old_phone \<in> set ps
      then Some (fst (delete_phone (fst (add_phone r new_phone)) old_phone), 1)
      else None)"
  by (induction ps) auto

text \<open>
  When the record holds a phone equal to \<open>old_phone\<close> and \<^verbatim>\<open>validate_phone\<close> rejects
  \<open>new_phone\<close>, \<^verbatim>\<open>edit_phone\<close> returns 1 and leaves the record with every entry equal to
  \<open>old_phone\<close> removed and nothing added; when \<^verbatim>\<open>validate_phone\<close> accepts \<open>new_phone\<close>,
  it is appended first.
\<close>

lemma edit_phone_rejected_new:
  assumes "old_phone \<in> set (phones r)" and "\<not> validate_phone new_phone"
  shows "edit_phone r old_phone new_phone =
           (r\<lparr>phones := filter (\<lambda>p. p \<noteq> old_phone) (phones r)\<rparr>, 1)"
  using assms
  by (simp add: edit_phone_def edit_phone_loop_eq add_phone_def Phone_def delete_phone_def)

lemma edit_phone_accepted_new:
  assumes "old_phone \<in> set (phones r)" and "validate_phone new_phone"
  shows "edit_phone r old_phone new_phone =
           (r\<lparr>phones := filter (\<lambda>p. p \<noteq> old_phone) (phones r @ [new_phone])\<rparr>, 1)"
  using assms
  by (simp add: edit_phone_def edit_phone_loop_eq add_phone_def Phone_def delete_phone_def)

text \<open>
  Claim C5. The claim says that an edit whose new value is invalid, that is, not a
  string of exactly ten digits, removes the entries equal to the old value and adds
  nothing. The new value goes through \<^verbatim>\<open>add_phone\<close> and so through the pattern
  \<^verbatim>\<open>^\d{10}$\<close>, whose \<^verbatim>\<open>$\<close> also matches before a final line feed: a new value of
  eleven characters, ten digits and a line feed, is added, and the record ends with
  that value in place of the old one instead of losing a phone.
\<close>

theorem edit_phone_adds_eleven_characters:
  "length (''1234567890'' @ [LF]) = 11 \<and>
   edit_phone \<lparr>name = Some ''Ann'', phones = [''0987654321''], birthday = None\<rparr>
       ''0987654321'' (''1234567890'' @ [LF]) =
     (\<lparr>name = Some ''Ann'', phones = [''1234567890'' @ [LF]], birthday = None\<rparr>, 1)"
  by code_simp

subsection \<open>Names\<close>

text \<open>
  Claim C7, as the code has it. \<^verbatim>\<open>Name\<close> raises exactly on the empty string and
  keeps every other string unchanged, a string of blanks included; \<^verbatim>\<open>Record(name)\<close> is
  left without a name exactly when the string is empty.
\<close>

theorem Name_fails_iff_empty:
  "(Name v = Inl ValueError \<longleftrightarrow> v = []) \<and>
   Name v = (if v = [] then Inl ValueError else Inr v) \<and>
   name (Record_init v) = (if v = [] then None else Some v)"
  by (simp add: Name_def Record_init_def)

theorem Name_fails_iff_empty_witness:
  "Name ''Ann'' = Inr ''Ann'' \<and> Name [] = Inl ValueError \<and>
   name (Record_init ''Ann'') = Some ''Ann'' \<and> name (Record_init []) = None"
  using Name_fails_iff_empty [of "''Ann''"] Name_fails_iff_empty [of "[]"]
  by simp

text \<open>The claim as the specification states it fails on a name of two blanks.\<close>

theorem Name_blank_counterexample:
  "list_all is_space [CHR '' '', CHR '' ''] \<and>
   Name [CHR '' '', CHR '' ''] = Inr [CHR '' '', CHR '' ''] \<and>
   name (Record_init [CHR '' '', CHR '' '']) = Some [CHR '' '', CHR '' '']"
  by (simp add: Name_def Record_init_def is_space_def)

subsection \<open>The birthday query without a reference date\<close>

text \<open>
  Claim C2. The claim says that a call without a reference date falls back to today
  and returns a list. In the code the call \<^verbatim>\<open>birthdays()\<close> passes \<^verbatim>\<open>None\<close> to
  \<^verbatim>\<open>datetime.strptime\<close>, whose \<^verbatim>\<open>TypeError\<close> is not handled by \<^verbatim>\<open>except ValueError\<close>:
  the call raises for every directory and every date of today.
\<close>

theorem birthdays_without_date_raises:
  "birthdays b now None = Inl TypeError"
  by (simp add: birthdays_def)

subsection \<open>Phone numbers\<close>

lemma match_digits_Some:
  "match_digits n s = Some r \<longleftrightarrow> (\<exists>ds. s = ds @ r \<and> length ds = n \<and> list_all is_digit ds)"
proof (induction n s rule: match_digits.induct)
  case (1 s)
  then show ?case by simp
next
  case (2 n)
  then show ?case by simp
next
  case (3 n c s)
  show ?case
  proof (cases "is_digit c")
    case True
    have "(\<exists>ds. c # s = ds @ r \<and> length ds = Suc n \<and> list_all is_digit ds) \<longleftrightarrow>
          (\<exists>ds'. s = ds' @ r \<and> length ds' = n \<and> list_all is_digit ds')"
    proof
      assume "\<exists>ds. c # s = ds @ r \<and> length ds = Suc n \<and> list_all is_digit ds"
      then obtain ds where ds: "c # s = ds @ r" "length ds = Suc n" "list_all is_digit ds" by blast
      then obtain d ds' where "ds = d # ds'" by (cases ds) auto
      with ds show "\<exists>ds'. s = ds' @ r \<and> length ds' = n \<and> list_all is_digit ds'" by auto
    next
      assume "\<exists>ds'. s = ds' @ r \<and> length ds' = n \<and> list_all is_digit ds'"
      then obtain ds' where "s = ds' @ r" "length ds' = n" "list_all is_digit ds'" by blast
      with True have "c # s = (c # ds') @ r \<and> length (c # ds') = Suc n \<and> list_all is_digit (c # ds')"
        by simp
      then show "\<exists>ds. c # s = ds @ r \<and> length ds = Suc n \<and> list_all is_digit ds" by blast
    qed
    with True 3 show ?thesis by simp
  next
    case False
    have "\<not> (\<exists>ds. c # s = ds @ r \<and> length ds = Suc n \<and> list_all is_digit ds)"
    proof
      assume "\<exists>ds. c # s = ds @ r \<and> length ds = Suc n \<and> list_all is_digit ds"
      then obtain ds where ds: "c # s = ds @ r" "length ds = Suc n" "list_all is_digit ds" by blast
      then obtain d ds' where "ds = d # ds'" by (cases ds) auto
      with ds False show False by auto
    qed
    with False show ?thesis by simp
  qed
qed

text \<open>
  What \<^verbatim>\<open>validate_phone\<close> accepts: ten digits, or ten digits and one line feed after
  them.
\<close>

lemma validate_phone_iff:
  "validate_phone v \<longleftrightarrow>
     (\<exists>ds. length ds = 10 \<and> list_all is_digit ds \<and> (v = ds \<or> v = ds @ [LF]))"
proof -
  have "validate_phone v \<longleftrightarrow> (\<exists>r. match_digits 10 v = Some r \<and> at_end r)"
    by (auto simp: validate_phone_def split: option.splits)
  also have "\<dots> \<longleftrightarrow> (\<exists>ds. length ds = 10 \<and> list_all is_digit ds \<and> (v = ds \<or> v = ds @ [LF]))"
    unfolding match_digits_Some at_end_def by auto
  finally show ?thesis .
qed

text \<open>
  Claim C6. The claim says that \<^verbatim>\<open>Phone\<close> accepts exactly the strings of ten ASCII
  digits. The code anchors the pattern with \<^verbatim>\<open>$\<close>, which also matches before a final
  line feed: a string of eleven characters, ten digits and a line feed, is accepted,
  and \<^verbatim>\<open>add_phone\<close> stores it.
\<close>

theorem Phone_accepts_trailing_line_feed:
  "Phone (''1234567890'' @ [LF]) = Inr (''1234567890'' @ [LF]) \<and>
   length (''1234567890'' @ [LF]) = 11 \<and>
   add_phone (Record_init ''Ann'') (''1234567890'' @ [LF]) =
     (\<lparr>name = Some ''Ann'', phones = [''1234567890'' @ [LF]], birthday = None\<rparr>, 1)"
  by code_simp

subsection \<open>Adding a birthday twice\<close>

text \<open>On a record that has a name, a second \<^verbatim>\<open>add_birthday\<close> returns 0 and changes nothing.\<close>

lemma add_birthday_existing:
  "name r = Some n \<Longrightarrow> birthday r = Some d \<Longrightarrow> add_birthday r b = Inr (r, 0)"
  by (simp add: add_birthday_def)

lemma edit_birthday_overwrites:
  "Birthday b = Inr d \<Longrightarrow> edit_birthday r b = (r\<lparr>birthday := Some d\<rparr>, 1)"
  by (simp add: edit_birthday_def)

text \<open>
  Claim C8. The claim says that on every record with a birthday a further
  \<^verbatim>\<open>add_birthday\<close> returns the failure outcome. \<^verbatim>\<open>Record("")\<close> is a record without a
  name; its first \<^verbatim>\<open>add_birthday\<close> succeeds, and the second one raises
  \<^verbatim>\<open>AttributeError\<close> while it builds its message from \<^verbatim>\<open>self.name.value\<close>, instead of
  returning 0.
\<close>

theorem add_birthday_nameless_raises:
  "add_birthday (Record_init []) ''01.01.2000'' =
     Inr (\<lparr>name = None, phones = [], birthday = Some (Date 2000 1 1)\<rparr>, 1) \<and>
   add_birthday \<lparr>name = None, phones = [], birthday = Some (Date 2000 1 1)\<rparr> ''02.02.2000'' =
     Inl AttributeError"
  by code_simp

subsection \<open>Decimal notation\<close>

lemma lt10_cases:
  "k < 10 \<Longrightarrow> k = 0 \<or> k = Suc 0 \<or> k = 2 \<or> k = 3 \<or> k = 4 \<or> k = 5 \<or> k = 6 \<or> k = 7 \<or> k = 8 \<or> k = (9::nat)"
  by arith

lemma digit_chars: "map digit_char [0, Suc 0, 2, 3, 4, 5, 6, 7, 8, 9] = ''0123456789''"
  by code_simp

lemma digit_char_numerals:
  "digit_char 0 = CHR ''0''" "digit_char (Suc 0) = CHR ''1''" "digit_char 2 = CHR ''2''"
  "digit_char 3 = CHR ''3''" "digit_char 4 = CHR ''4''" "digit_char 5 = CHR ''5''"
  "digit_char 6 = CHR ''6''" "digit_char 7 = CHR ''7''" "digit_char 8 = CHR ''8''"
  "digit_char 9 = CHR ''9''"
  using digit_chars by simp_all

lemma is_digit_digit_char: "k < 10 \<Longrightarrow> is_digit (digit_char k)"
  by (auto dest!: lt10_cases simp: digit_char_numerals is_digit_def)

lemma digit_val_digit_char: "k < 10 \<Longrightarrow> digit_val (digit_char k) = k"
  by (auto dest!: lt10_cases simp: digit_char_numerals digit_val_def)


lemma is_digit_not_space: "is_digit c \<Longrightarrow> \<not> is_space c"
  by (auto simp: is_digit_def is_space_def)

lemma list_all_digit_dec: "list_all is_digit (dec n)"
proof (induction n rule: dec.induct)
  case (1 n)
  show ?case
  proof (cases "n < 10")
    case True
    then show ?thesis by (subst dec.simps) (simp add: is_digit_digit_char)
  next
    case False
    with 1 have "list_all is_digit (dec (n div 10))" by simp
    moreover have "is_digit (digit_char (n mod 10))" by (simp add: is_digit_digit_char)
    ultimately show ?thesis using False by (subst dec.simps) simp
  qed
qed

lemma dec_nonempty: "dec n \<noteq> []"
  by (subst dec.simps) simp

lemma foldl_dec: "foldl (\<lambda>n c. 10 * n + digit_val c) 0 (dec n) = n"
proof (induction n rule: dec.induct)
  case (1 n)
  show ?case
  proof (cases "n < 10")
    case True
    then show ?thesis by (subst dec.simps) (simp add: digit_val_digit_char)
  next
    case False
    with 1 have "foldl (\<lambda>n c. 10 * n + digit_val c) 0 (dec (n div 10)) = n div 10" by simp
    then show ?thesis using False by (subst dec.simps) (simp add: digit_val_digit_char)
  qed
qed

lemma strip_id:
  assumes "s \<noteq> []" "\<not> is_space (hd s)" "\<not> is_space (last s)"
  shows "strip s = s"
proof -
  from assms have 1: "dropWhile is_space s = s" by (cases s) auto
  from assms have "rev s \<noteq> []" "\<not> is_space (hd (rev s))" by (auto simp: hd_rev)
  then have 2: "dropWhile is_space (rev s) = rev s" by (cases "rev s") auto
  show ?thesis by (simp add: strip_def 1 2)
qed

lemma strip_digits: "s \<noteq> [] \<Longrightarrow> list_all is_digit s \<Longrightarrow> strip s = s"
proof (rule strip_id)
  assume a: "s \<noteq> []" "list_all is_digit s"
  show "s \<noteq> []" by fact
  from a have "is_digit (hd s)" by (cases s) auto
  then show "\<not> is_space (hd s)" by (rule is_digit_not_space)
  from a have "is_digit (last s)" by (simp add: list_all_iff)
  then show "\<not> is_space (last s)" by (rule is_digit_not_space)
qed

lemma py_int_dec: "py_int (dec n) = n"
  by (simp add: py_int_def strip_digits dec_nonempty list_all_digit_dec foldl_dec)

lemma dec1: "n < 10 \<Longrightarrow> dec n = [digit_char n]"
  by (subst dec.simps) simp

lemma dec2: "10 \<le> n \<Longrightarrow> n < 100 \<Longrightarrow> dec n = [digit_char (n div 10), digit_char (n mod 10)]"
  by (subst dec.simps) (simp add: dec1)

lemma pad2_eq: "n < 100 \<Longrightarrow> pad2 n = [digit_char (n div 10), digit_char (n mod 10)]"
  by (cases "n < 10") (simp_all add: pad2_def dec1 dec2 digit_char_numerals)

lemma py_int_pad2: "n < 100 \<Longrightarrow> py_int (pad2 n) = n"
proof -
  assume n: "n < 100"
  let ?s = "[digit_char (n div 10), digit_char (n mod 10)]"
  from n have d: "list_all is_digit ?s" by (simp add: is_digit_digit_char)
  then have "strip ?s = ?s" by (intro strip_digits) simp_all
  with n show ?thesis by (simp add: py_int_def pad2_eq digit_val_digit_char)
qed

lemma dec3: "100 \<le> n \<Longrightarrow> n < 1000 \<Longrightarrow>
  dec n = [digit_char (n div 100), digit_char (n div 10 mod 10), digit_char (n mod 10)]"
proof -
  assume a: "100 \<le> n" "n < 1000"
  then have "10 \<le> n div 10" "n div 10 < 100" by simp_all
  then have "dec (n div 10) = [digit_char (n div 10 div 10), digit_char (n div 10 mod 10)]"
    by (rule dec2)
  moreover have "n div 10 div 10 = n div 100" by (simp add: div_mult2_eq[symmetric])
  ultimately show ?thesis using a by (subst dec.simps) simp
qed

lemma dec4: "1000 \<le> n \<Longrightarrow> n < 10000 \<Longrightarrow>
  dec n = [digit_char (n div 1000), digit_char (n div 100 mod 10),
           digit_char (n div 10 mod 10), digit_char (n mod 10)]"
proof -
  assume a: "1000 \<le> n" "n < 10000"
  then have "100 \<le> n div 10" "n div 10 < 1000" by simp_all
  then have "dec (n div 10) = [digit_char (n div 10 div 100), digit_char (n div 10 div 10 mod 10),
      digit_char (n div 10 mod 10)]"
    by (rule dec3)
  moreover have "n div 10 div 100 = n div 1000" "n div 10 div 10 = n div 100"
    by (simp_all add: div_mult2_eq[symmetric])
  ultimately show ?thesis using a by (subst dec.simps) simp
qed

subsection \<open>Parsing what \<^verbatim>\<open>strftime\<close> printed\<close>

lemma day_cases:
  assumes "1 \<le> d" "d \<le> 31"
  obtains "d = 1" | "d = 2" | "d = 3" | "d = 4" | "d = 5" | "d = 6" | "d = 7" | "d = 8"
    | "d = 9" | "d = 10" | "d = 11" | "d = 12" | "d = 13" | "d = 14" | "d = 15" | "d = 16"
    | "d = 17" | "d = 18" | "d = 19" | "d = 20" | "d = 21" | "d = 22" | "d = 23" | "d = 24"
    | "d = 25" | "d = 26" | "d = 27" | "d = 28" | "d = 29" | "d = 30" | "d = (31::nat)"
proof -
  have "d = 1 \<or> d = 2 \<or> d = 3 \<or> d = 4 \<or> d = 5 \<or> d = 6 \<or> d = 7 \<or> d = 8 \<or> d = 9 \<or> d = 10 \<or>
        d = 11 \<or> d = 12 \<or> d = 13 \<or> d = 14 \<or> d = 15 \<or> d = 16 \<or> d = 17 \<or> d = 18 \<or> d = 19 \<or>
        d = 20 \<or> d = 21 \<or> d = 22 \<or> d = 23 \<or> d = 24 \<or> d = 25 \<or> d = 26 \<or> d = 27 \<or> d = 28 \<or>
        d = 29 \<or> d = 30 \<or> d = 31"
    using assms by arith
  then show thesis using that by blast
qed

lemma month_cases:
  assumes "1 \<le> m" "m \<le> 12"
  obtains "m = 1" | "m = 2" | "m = 3" | "m = 4" | "m = 5" | "m = 6" | "m = 7" | "m = 8"
    | "m = 9" | "m = 10" | "m = 11" | "m = (12::nat)"
proof -
  have "m = 1 \<or> m = 2 \<or> m = 3 \<or> m = 4 \<or> m = 5 \<or> m = 6 \<or> m = 7 \<or> m = 8 \<or> m = 9 \<or> m = 10 \<or>
        m = 11 \<or> m = 12"
    using assms by arith
  then show thesis using that by blast
qed

lemma d_group_pad2:
  assumes "1 \<le> d" "d \<le> 31"
  shows "concat (map (\<lambda>(t, r1). concat (map (G t) (dot r1))) (d_group (pad2 d @ CHR ''.'' # r)))
         = G (pad2 d) r"
  using assms
  by (cases d rule: day_cases)
     (simp_all add: pad2_eq digit_char_numerals d_group_def alt1_def alt2_def dot_def is_digit_def)

lemma m_group_pad2:
  assumes "1 \<le> m" "m \<le> 12"
  shows "concat (map (\<lambda>(t, r1). concat (map (G t) (dot r1))) (m_group (pad2 m @ CHR ''.'' # r)))
         = G (pad2 m) r"
  using assms
  by (cases m rule: month_cases)
     (simp_all add: pad2_eq digit_char_numerals m_group_def alt1_def alt2_def dot_def is_digit_def)

lemma Y_group_dec:
  assumes "1000 \<le> y" "y \<le> 9999"
  shows "Y_group (dec y @ r) = [(dec y, r)]"
  using assms by (simp add: dec4 Y_group_def is_digit_digit_char)

lemma format_regex_strftime:
  assumes "1 \<le> d" "d \<le> 31" "1 \<le> m" "m \<le> 12" "1000 \<le> y" "y \<le> 9999"
  shows "format_regex (strftime (Date y m d) @ r) = [((pad2 d, pad2 m, dec y), r)]"
proof -
  have "format_regex (strftime (Date y m d) @ r) =
        concat (map (\<lambda>(t, r1). concat (map
          (\<lambda>r2. concat (map (\<lambda>(mm, r3). concat (map
             (\<lambda>r4. map (\<lambda>(yy, r5). ((t, mm, yy), r5)) (Y_group r4)) (dot r3))) (m_group r2)))
          (dot r1))) (d_group (pad2 d @ CHR ''.'' # (pad2 m @ CHR ''.'' # (dec y @ r)))))"
    by (simp add: format_regex_def strftime_def)
  also have "\<dots> = concat (map (\<lambda>(mm, r3). concat (map
             (\<lambda>r4. map (\<lambda>(yy, r5). ((pad2 d, mm, yy), r5)) (Y_group r4)) (dot r3)))
             (m_group (pad2 m @ CHR ''.'' # (dec y @ r))))"
    using d_group_pad2 [OF assms(1,2), where G = "\<lambda>t r2. concat (map (\<lambda>(mm, r3). concat (map
             (\<lambda>r4. map (\<lambda>(yy, r5). ((t, mm, yy), r5)) (Y_group r4)) (dot r3))) (m_group r2))"]
    by simp
  also have "\<dots> = map (\<lambda>(yy, r5). ((pad2 d, pad2 m, yy), r5)) (Y_group (dec y @ r))"
    using m_group_pad2 [OF assms(3,4), where G = "\<lambda>mm r4. map (\<lambda>(yy, r5). ((pad2 d, mm, yy), r5)) (Y_group r4)"]
    by simp
  also have "\<dots> = [((pad2 d, pad2 m, dec y), r)]"
    by (simp add: Y_group_dec [OF assms(5,6)])
  finally show ?thesis .
qed

lemma strptime_strftime_gen:
  assumes "1 \<le> d" "d \<le> 31" "1 \<le> m" "m \<le> 12" "1000 \<le> y" "y \<le> 9999"
  shows "strptime (strftime (Date y m d) @ r) =
           (if r = [] \<and> d \<le> days_in_month y m then Inr (Date y m d) else Inl ValueError)"
  using assms
  by (simp add: strptime_def format_regex_strftime py_int_dec py_int_pad2 valid_date_def)


subsection \<open>Birthdays\<close>

lemma century_digits:
  assumes "1900 \<le> (y::nat)" "y \<le> 2099"
  shows "y div 1000 = 1 \<and> y div 100 mod 10 = 9 \<or> y div 1000 = 2 \<and> y div 100 mod 10 = 0"
proof (cases "y < 2000")
  case True
  with assms have "y div 1000 = 1" "y div 100 = 19" by simp_all
  then show ?thesis by simp
next
  case False
  with assms have "y div 1000 = 2" "y div 100 = 20" by simp_all
  then show ?thesis by simp
qed

lemma strftime_chars:
  assumes "d < 100" "m < 100" "1000 \<le> y" "y < 10000"
  shows "strftime (Date y m d) @ r =
           digit_char (d div 10) # digit_char (d mod 10) # CHR ''.'' #
           digit_char (m div 10) # digit_char (m mod 10) # CHR ''.'' #
           digit_char (y div 1000) # digit_char (y div 100 mod 10) #
           digit_char (y div 10 mod 10) # digit_char (y mod 10) # r"
  using assms by (simp add: strftime_def pad2_eq dec4)


lemma validate_birthday_strftime:
  assumes "1 \<le> d" "d \<le> 31" "1 \<le> m" "m \<le> 12" "1900 \<le> y" "y \<le> 2099"
  shows "validate_birthday (strftime (Date y m d) @ r) = at_end r"
proof -
  have dd: "day_tok (digit_char (d div 10)) (digit_char (d mod 10))"
    using assms(1,2) by (cases d rule: day_cases) (simp_all add: day_tok_def digit_char_numerals)
  have mm: "month_tok (digit_char (m div 10)) (digit_char (m mod 10))"
    using assms(3,4) by (cases m rule: month_cases) (simp_all add: month_tok_def digit_char_numerals)
  have yy: "century_tok (digit_char (y div 1000)) (digit_char (y div 100 mod 10))"
    using century_digits [OF assms(5,6)] by (auto simp: century_tok_def digit_char_numerals)
  have y3: "is_digit (digit_char (y div 10 mod 10))" by (rule is_digit_digit_char) simp
  have y4: "is_digit (digit_char (y mod 10))" by (rule is_digit_digit_char) simp
  have s: "strftime (Date y m d) @ r =
           digit_char (d div 10) # digit_char (d mod 10) # CHR ''.'' #
           digit_char (m div 10) # digit_char (m mod 10) # CHR ''.'' #
           digit_char (y div 1000) # digit_char (y div 100 mod 10) #
           digit_char (y div 10 mod 10) # digit_char (y mod 10) # r"
    using assms by (intro strftime_chars) simp_all
  show ?thesis
    unfolding s validate_birthday.simps using dd mm yy y3 y4 by simp
qed

text \<open>
  Claim C1, as the code has it. For a string \<^verbatim>\<open>DD.MM.YYYY\<close> with day 01 to 31, month 01
  to 12 and year 1900 to 2099 the regular expression of \<^verbatim>\<open>validate_birthday\<close> matches,
  and \<^verbatim>\<open>Birthday\<close> succeeds exactly when the day exists in that month of that year:
  \<^verbatim>\<open>datetime.strptime\<close> runs after the regular expression and raises \<^verbatim>\<open>ValueError\<close>
  on a day that the month does not have. The stored value is the date.
\<close>

theorem Birthday_accepts_calendar_dates:
  assumes "1 \<le> d" "d \<le> 31" "1 \<le> m" "m \<le> 12" "1900 \<le> y" "y \<le> 2099"
  shows "validate_birthday (pad2 d @ ''.'' @ pad2 m @ ''.'' @ dec y) \<and>
         Birthday (pad2 d @ ''.'' @ pad2 m @ ''.'' @ dec y) =
           (if d \<le> days_in_month y m then Inr (Date y m d) else Inl ValueError)"
proof -
  have s: "pad2 d @ ''.'' @ pad2 m @ ''.'' @ dec y = strftime (Date y m d) @ []"
    by (simp add: strftime_def)
  have v: "validate_birthday (strftime (Date y m d) @ [])"
    using validate_birthday_strftime [OF assms, of "[]"] by (simp add: at_end_def)
  have p: "strptime (strftime (Date y m d) @ []) =
           (if d \<le> days_in_month y m then Inr (Date y m d) else Inl ValueError)"
    using assms strptime_strftime_gen [of d m y "[]"] by simp
  show ?thesis unfolding s using v p by (simp add: Birthday_def)
qed

theorem Birthday_accepts_calendar_dates_witness:
  "Birthday ''29.02.2024'' = Inr (Date 2024 2 29) \<and> Birthday ''29.02.2023'' = Inl ValueError"
proof -
  have a: "pad2 29 @ ''.'' @ pad2 2 @ ''.'' @ dec 2024 = ''29.02.2024''"
    by code_simp
  have b: "pad2 29 @ ''.'' @ pad2 2 @ ''.'' @ dec 2023 = ''29.02.2023''"
    by code_simp
  have c: "days_in_month 2024 2 = 29"
    by code_simp
  have d: "days_in_month 2023 2 = 28"
    by code_simp
  have "Birthday (pad2 29 @ ''.'' @ pad2 2 @ ''.'' @ dec 2024) =
          (if 29 \<le> days_in_month 2024 2 then Inr (Date 2024 2 29) else Inl ValueError)"
    by (rule conjunct2 [OF Birthday_accepts_calendar_dates]) simp_all
  then have h1: "Birthday ''29.02.2024'' = Inr (Date 2024 2 29)"
    unfolding a c by simp
  have "Birthday (pad2 29 @ ''.'' @ pad2 2 @ ''.'' @ dec 2023) =
          (if 29 \<le> days_in_month 2023 2 then Inr (Date 2023 2 29) else Inl ValueError)"
    by (rule conjunct2 [OF Birthday_accepts_calendar_dates]) simp_all
  then have h2: "Birthday ''29.02.2023'' = Inl ValueError"
    unfolding b d by simp
  from h1 h2 show ?thesis ..
qed

text \<open>
  The claim as the specification states it fails on its own example: the regular
  expression matches \<^verbatim>\<open>31.02.2024\<close>, and the constructor raises \<^verbatim>\<open>ValueError\<close>.
\<close>

theorem Birthday_31_02_2024_counterexample:
  "validate_birthday ''31.02.2024'' \<and> Birthday ''31.02.2024'' = Inl ValueError"
  by code_simp

subsection \<open>The order of the birthday list\<close>

lemma sort_keys_Inr:
  "sort_keys xs = Inr ks \<Longrightarrow>
     map snd ks = xs \<and>
     (\<forall>kx\<in>set ks. \<exists>d. strptime (snd (snd kx)) = Inr d \<and> fst kx = date_key d)"
proof (induction xs arbitrary: ks)
  case Nil
  then show ?case by simp
next
  case (Cons x xs)
  from Cons.prems obtain k ks' where k: "strptime (snd x) = Inr k"
    and ks': "sort_keys xs = Inr ks'" and ks: "ks = (date_key k, x) # ks'"
    by (auto split: sum.splits)
  from Cons.IH [OF ks'] k ks show ?case by simp
qed

lemma keys_dates:
  "\<forall>kx\<in>set L. \<exists>d. strptime (snd (snd kx)) = Inr d \<and> fst kx = date_key d \<Longrightarrow>
     \<exists>ds. map (\<lambda>e. strptime (snd e)) (map snd L) = map Inr ds \<and> map date_key ds = map fst L"
proof (induction L)
  case Nil
  then show ?case by simp
next
  case (Cons kx L)
  from Cons.prems obtain d where d: "strptime (snd (snd kx)) = Inr d" "fst kx = date_key d"
    by auto
  from Cons.prems have "\<forall>kx\<in>set L. \<exists>d. strptime (snd (snd kx)) = Inr d \<and> fst kx = date_key d"
    by simp
  from Cons.IH [OF this] obtain ds where
    ds: "map (\<lambda>e. strptime (snd e)) (map snd L) = map Inr ds" "map date_key ds = map fst L"
    by blast
  from d ds have "map (\<lambda>e. strptime (snd e)) (map snd (kx # L)) = map Inr (d # ds) \<and>
                  map date_key (d # ds) = map fst (kx # L)" by simp
  then show ?case by blast
qed

lemma sorted_by_date_sorted:
  assumes "sorted_by_date xs = Inr res"
  shows "(\<exists>ds. map (\<lambda>e. strptime (snd e)) res = map Inr ds \<and> sorted (map date_key ds)) \<and>
         set res = set xs \<and> length res = length xs"
proof -
  from assms obtain ks where ks: "sort_keys xs = Inr ks" and res: "res = map snd (sort_key fst ks)"
    by (auto simp: sorted_by_date_def split: sum.splits)
  note sk = sort_keys_Inr [OF ks]
  from sk have "\<forall>kx\<in>set (sort_key fst ks). \<exists>d. strptime (snd (snd kx)) = Inr d \<and> fst kx = date_key d"
    by simp
  from keys_dates [OF this] obtain ds where
    ds: "map (\<lambda>e. strptime (snd e)) res = map Inr ds" "map date_key ds = map fst (sort_key fst ks)"
    unfolding res by blast
  have "sorted (map date_key ds)" unfolding ds(2) by (rule sorted_sort_key)
  moreover have "set res = snd ` set ks" by (simp add: res)
  moreover have "set xs = snd ` set ks" using sk by (metis set_map)
  moreover have "length res = length ks" by (simp add: res)
  moreover have "length xs = length ks" using sk by (metis length_map)
  ultimately show ?thesis using ds(1) by auto
qed

text \<open>
  Claim C9. Whenever \<^verbatim>\<open>birthdays\<close> returns a list, every reported date string of the list
  parses with \<^verbatim>\<open>strptime\<close>, and the list is in ascending order of the parsed dates, each
  with the year that the string carries; the list has the entries that the scan over the
  records collected, no more and no fewer.
\<close>

theorem birthdays_sorted:
  assumes "birthdays b now check_day = Inr res"
  shows "(\<exists>ds. map (\<lambda>e. strptime (snd e)) res = map Inr ds \<and> sorted (map date_key ds)) \<and>
         (\<exists>today upcoming. scan_users today [] (map snd b) = Inr upcoming \<and>
            set res = set upcoming \<and> length res = length upcoming)"
proof -
  from assms obtain today upcoming where
    u: "scan_users today [] (map snd b) = Inr upcoming" and s: "sorted_by_date upcoming = Inr res"
    by (auto simp: birthdays_def Let_def split: option.splits sum.splits error.splits)
  from sorted_by_date_sorted [OF s] u show ?thesis by blast
qed

theorem birthdays_sorted_witness:
  "birthdays [(''Bob'', \<lparr>name = Some ''Bob'', phones = [], birthday = Some (Date 1995 1 3)\<rparr>),
              (''Ann'', \<lparr>name = Some ''Ann'', phones = [], birthday = Some (Date 1990 1 5)\<rparr>)]
       (Date 2000 6 15) (Some ''01.01.2024'') =
     Inr [(''Ann'', ''05.01.1990''), (''Bob'', ''03.01.1995'')] \<and>
   (\<exists>ds. map (\<lambda>e. strptime (snd e)) [(''Ann'', ''05.01.1990''), (''Bob'', ''03.01.1995'')] =
           map Inr ds \<and> sorted (map date_key ds))"
proof -
  have e: "birthdays [(''Bob'', \<lparr>name = Some ''Bob'', phones = [], birthday = Some (Date 1995 1 3)\<rparr>),
              (''Ann'', \<lparr>name = Some ''Ann'', phones = [], birthday = Some (Date 1990 1 5)\<rparr>)]
       (Date 2000 6 15) (Some ''01.01.2024'') =
     Inr [(''Ann'', ''05.01.1990''), (''Bob'', ''03.01.1995'')]"
    by code_simp
  from birthdays_sorted [OF e] e show ?thesis by blast
qed

subsection \<open>Lines of the file with the same name\<close>








text \<open>The same on a whole file of two lines.\<close>

lemma file_read_same_name_example:
  "file_read (Some (''Ann,1112223333,01.01.2000'' @ [LF] @
                    ''Ann, 4445556666-abc, 02.02.2000'' @ [LF])) =
     Inr [(''Ann'', \<lparr>name = Some ''Ann'', phones = [''1112223333'', ''4445556666''],
                     birthday = Some (Date 2000 1 1)\<rparr>)]"
  by code_simp

subsection \<open>Which records the birthday query reports\<close>















end
